theory Spec2Isabelle
  imports Complex_Main "HOL-Library.Multiset" "HOL-Library.Log_Nat"
begin

text \<open>
  A model of the core of \<^verbatim>\<open>src/MoonCodeApp.jsx\<close>: the gateway functions over the
  table of messages, the projection of a row for a viewer, the store with its merge and
  its sorted view, the handlers for sending, opening and unlocking, and the verification
  of a capture. The file holds four versions of the application one after the other;
  the model follows the first (lines 1 to 1158), whose threshold is 0.75.
\<close>

section \<open>Strings\<close>

text \<open>
  A JavaScript string is a sequence of UTF-16 code units. The model keeps the code units
  U+0000 .. U+00FF, one \<^typ>\<open>char\<close> each; the names, labels and letter bodies the
  operations compare are read in that alphabet.
\<close>

text \<open>
  The code units that \<^verbatim>\<open>String.prototype.trim\<close> strips (WhiteSpace and LineTerminator
  of ECMAScript) in the range of the model: TAB, LF, VT, FF, CR, SPACE and NBSP.
\<close>

definition is_ws :: "char \<Rightarrow> bool" where
  "is_ws c = (of_char c \<in> {9, 10, 11, 12, 13, 32, 160 :: nat})"

definition trim :: "string \<Rightarrow> string" where
  "trim s = rev (dropWhile is_ws (rev (dropWhile is_ws s)))"

text \<open>
  \<^verbatim>\<open>String.prototype.toLowerCase\<close> on the same alphabet: A-Z and the Latin-1 capitals
  (U+00C0 .. U+00DE without the multiplication sign U+00D7) move up by 32.
\<close>

definition lower_char :: "char \<Rightarrow> char" where
  "lower_char c =
     (let n = (of_char c :: nat)
      in if (65 \<le> n \<and> n \<le> 90) \<or> (192 \<le> n \<and> n \<le> 222 \<and> n \<noteq> 215)
         then char_of (n + 32) else c)"

definition toLowerCase :: "string \<Rightarrow> string" where
  "toLowerCase s = map lower_char s"

section \<open>Rows and messages\<close>

text \<open>
  A timestamp is the number of milliseconds that \<^verbatim>\<open>new Date(iso)\<close> reads from the ISO
  string the row carries.
\<close>

type_synonym timestamp = int

text \<open>
  The object \<^verbatim>\<open>verifyMoon\<close> hands to \<^verbatim>\<open>onVerifiedMoon\<close>. The confidence is the
  number the double denotes; the comparisons of the code are exact on it.
\<close>

record capture =
  dataUrl :: "string option"
  confidence :: real
  verifiedAt :: timestamp

text \<open>
  A row of the table \<^verbatim>\<open>messages\<close>. A photo column holds a capture object or null,
  a nullable column is an option.
\<close>

record row =
  row_id :: nat
  sender :: string
  recipient :: string
  row_body :: string
  row_locked :: bool
  created_at :: timestamp
  receive_at :: "timestamp option"
  send_photo :: "capture option"
  receive_photo :: "capture option"

record message =
  msg_id :: nat
  msg_from :: string
  msg_to :: string
  body :: string
  locked :: bool
  sentAt :: timestamp
  receiveAt :: "timestamp option"
  sendPhoto :: "capture option"
  receivePhoto :: "capture option"
  archived :: bool
  rawSender :: string
  rawRecipient :: string

text \<open>
  \<^verbatim>\<open>viewerName?.trim() || "You"\<close>: an undefined name and a name that trims to the empty
  string both give \<^verbatim>\<open>"You"\<close>.
\<close>

definition viewer_of :: "string option \<Rightarrow> string" where
  "viewer_of viewerName =
     (case viewerName of
        None \<Rightarrow> ''You''
      | Some n \<Rightarrow> (if trim n = [] then ''You'' else trim n))"

text \<open>\<^verbatim>\<open>!!x\<close> on a photo column: an object is truthy, null is not.\<close>

definition truthy :: "'a option \<Rightarrow> bool" where
  "truthy x = (case x of None \<Rightarrow> False | Some _ \<Rightarrow> True)"

definition mapRowToMessage :: "row \<Rightarrow> string option \<Rightarrow> message" where
  "mapRowToMessage r viewerName =
     (let viewer = viewer_of viewerName;
          isSender = (sender r = viewer)
      in \<lparr> msg_id = row_id r,
           msg_from = (if isSender then ''You'' else sender r),
           msg_to = (if isSender then recipient r else ''You''),
           body = row_body r,
           locked = row_locked r,
           sentAt = created_at r,
           receiveAt = receive_at r,
           sendPhoto = send_photo r,
           receivePhoto = receive_photo r,
           archived = truthy (receive_photo r),
           rawSender = sender r,
           rawRecipient = recipient r \<rparr>)"

text \<open>The rows of the examples.\<close>

definition alice_to_bob :: row where
  "alice_to_bob =
     \<lparr> row_id = 1, sender = ''Alice'', recipient = ''Bob'', row_body = ''hello'',
       row_locked = True, created_at = 1000, receive_at = None, send_photo = None,
       receive_photo = None \<rparr>"

definition you_to_bob :: row where
  "you_to_bob = alice_to_bob \<lparr> row_id := 2, sender := ''You'' \<rparr>"

section \<open>Persistence gateway\<close>

text \<open>
  What the Supabase client reports in the field \<^verbatim>\<open>error\<close> of its answer, and what a
  handler catches when it reads a field of null.
\<close>

datatype error = SupabaseError string | TypeError string

text \<open>
  Modelled from the spec: the Supabase service and the schema of the table
  \<^verbatim>\<open>messages\<close> are not in the repository. The table is the list of its rows; a
  request that the service does not answer (transport failure, access denied) resolves
  with the error held in \<open>outage\<close> and changes nothing; the columns an insert does not
  name take the value null; \<^verbatim>\<open>.single()\<close> resolves with an error, and the update is
  undone, unless exactly one row is selected. Every insert and every update adds the
  new state of its row to \<open>events\<close>, the rows the change feed has to deliver.
\<close>

record backend =
  table :: "row list"
  events :: "row list"
  outage :: "error option"

definition not_single :: error where
  "not_single = SupabaseError ''JSON object requested, multiple (or no) rows returned''"

text \<open>
  \<^verbatim>\<open>pgQuote\<close> only builds the text of the filter; the filter itself is equality of the
  column with the trimmed name.
\<close>

definition fetchMessagesForUser :: "backend \<Rightarrow> string \<Rightarrow> error + row list" where
  "fetchMessagesForUser b userName =
     (let u = trim userName
      in case outage b of
           Some e \<Rightarrow> Inl e
         | None \<Rightarrow>
             Inr (sort_key (\<lambda>r. - created_at r)
                    (filter (\<lambda>r. sender r = u \<or> recipient r = u) (table b))))"

text \<open>The id and the creation time are assigned by the service: \<open>new_id\<close> and \<open>now\<close>.\<close>

definition insertMessage ::
  "backend \<Rightarrow> nat \<Rightarrow> timestamp \<Rightarrow> string \<Rightarrow> string \<Rightarrow> string \<Rightarrow> capture option
     \<Rightarrow> error + backend \<times> row" where
  "insertMessage b new_id now sndr rcpt bdy sndPhoto =
     (case outage b of
        Some e \<Rightarrow> Inl e
      | None \<Rightarrow>
          (let r = \<lparr> row_id = new_id, sender = sndr, recipient = rcpt, row_body = bdy,
                     row_locked = True, created_at = now, receive_at = None,
                     send_photo = sndPhoto, receive_photo = None \<rparr>
           in Inr (b \<lparr> table := table b @ [r], events := events b @ [r] \<rparr>, r)))"

text \<open>
  The update names the row by its id alone; \<open>now\<close> is the client's
  \<^verbatim>\<open>new Date().toISOString()\<close>.
\<close>

definition unlock_update :: "nat \<Rightarrow> capture option \<Rightarrow> timestamp \<Rightarrow> row \<Rightarrow> row" where
  "unlock_update i rcvPhoto now r =
     (if row_id r = i
      then r \<lparr> row_locked := False, receive_photo := rcvPhoto, receive_at := Some now \<rparr>
      else r)"

definition unlockMessage ::
  "backend \<Rightarrow> nat \<Rightarrow> capture option \<Rightarrow> timestamp \<Rightarrow> error + backend \<times> row" where
  "unlockMessage b i rcvPhoto now =
     (case outage b of
        Some e \<Rightarrow> Inl e
      | None \<Rightarrow>
          (case filter (\<lambda>r. row_id r = i) (table b) of
             [r] \<Rightarrow> Inr (b \<lparr> table := map (unlock_update i rcvPhoto now) (table b),
                             events := events b @ [unlock_update i rcvPhoto now r] \<rparr>,
                         unlock_update i rcvPhoto now r)
           | _ \<Rightarrow> Inl not_single))"

section \<open>Capture verification\<close>

record prediction =
  className :: string
  probability :: real

definition MOON_CLASS_NAME :: string where
  "MOON_CLASS_NAME = ''Moon''"

definition MOON_THRESHOLD :: real where
  "MOON_THRESHOLD = 0.75"

text \<open>
  A Number that is finite or one of the two infinities. A NaN does not arise: the
  probabilities are finite, and so is the factor 100.
\<close>

datatype 'a extended = Finite 'a | PlusInfinity | MinusInfinity

text \<open>
  The product \<^verbatim>\<open>moonProb * 100\<close> is a binary64 multiplication: the exact product,
  rounded to the nearest double, a tie to the double with the even significand
  (IEEE 754, the rounding of every Number operation of the language).

  \<open>exponent a\<close> is the binary exponent of a positive \<open>a\<close>, not below that of the
  smallest normal double; a double of that exponent is a multiple of
  \<open>2 powi (exponent a - 52)\<close>, and \<open>ties_to_even\<close> picks the multiple. A result of
  \<open>2 ^ 1024\<close> or more has overflowed.
\<close>

definition ties_to_even :: "real \<Rightarrow> int" where
  "ties_to_even m =
     (let f = \<lfloor>m\<rfloor>; d = m - of_int f
      in if d < 1 / 2 then f
         else if 1 / 2 < d then f + 1
         else if even f then f else f + 1)"

definition exponent :: "real \<Rightarrow> int" where
  "exponent a =
     (if 1 \<le> a then bitlen \<lfloor>a\<rfloor> - 1
      else max (- 1022) (- bitlen (\<lceil>1 / a\<rceil> - 1)))"

definition round_binary64 :: "real \<Rightarrow> real extended" where
  "round_binary64 x =
     (if x = 0 then Finite 0
      else
        (let a = \<bar>x\<bar>;
             q = 2 powi (exponent a - 52);
             r = of_int (ties_to_even (a / q)) * q
         in if 2 ^ 1024 \<le> r then (if 0 < x then PlusInfinity else MinusInfinity)
            else Finite (if 0 < x then r else - r)))"

text \<open>\<^verbatim>\<open>Math.round\<close>: the nearest integer, a half rounded up; an infinity stays.\<close>

fun Math_round :: "real extended \<Rightarrow> int extended" where
  "Math_round (Finite d) = Finite \<lfloor>d + 1 / 2\<rfloor>"
| "Math_round PlusInfinity = PlusInfinity"
| "Math_round MinusInfinity = MinusInfinity"

text \<open>\<^verbatim>\<open>Math.round(moonProb * 100)\<close>.\<close>

definition percent :: "real \<Rightarrow> int extended" where
  "percent p = Math_round (round_binary64 (p * 100))"

text \<open>The texts \<^verbatim>\<open>setResultText\<close> shows, each with the number it carries.\<close>

datatype resultText =
    NoText
  | MoonVerified "int extended"
  | NotEnoughMoon "int extended"
  | VerificationFailed string

text \<open>The state of \<^verbatim>\<open>MoonCameraCapture\<close> that \<^verbatim>\<open>verifyMoon\<close> reads and writes.\<close>

record camera =
  model_loaded :: bool
  canvas_present :: bool
  capturedDataUrl :: "string option"
  verifying :: bool
  result :: resultText

definition moonProb :: "prediction list \<Rightarrow> real" where
  "moonProb predictions =
     (case find (\<lambda>p. toLowerCase (className p) = toLowerCase MOON_CLASS_NAME) predictions of
        None \<Rightarrow> 0
      | Some moonPred \<Rightarrow> probability moonPred)"

text \<open>
  The labels that are \<^verbatim>\<open>"moon"\<close> up to the case of each letter.
\<close>

definition is_moon_label :: "string \<Rightarrow> bool" where
  "is_moon_label l =
     (case l of
        [a, b, c, d] \<Rightarrow>
          (a = CHR ''m'' \<or> a = CHR ''M'') \<and> (b = CHR ''o'' \<or> b = CHR ''O'')
        \<and> (c = CHR ''o'' \<or> c = CHR ''O'') \<and> (d = CHR ''n'' \<or> d = CHR ''N'')
      | _ \<Rightarrow> False)"

text \<open>
  \<open>predicted\<close> is what the model answers for the canvas: the predictions of either
  backend, or the message of the error it throws. The second component of the result is
  the argument of \<^verbatim>\<open>onVerifiedMoon\<close>, when it is called.
\<close>

definition verifyMoon ::
  "timestamp \<Rightarrow> string + prediction list \<Rightarrow> camera \<Rightarrow> camera \<times> capture option" where
  "verifyMoon now predicted c =
     (if \<not> model_loaded c then (c, None)
      else if \<not> canvas_present c then (c, None)
      else
        (case predicted of
           Inl msg \<Rightarrow> (c \<lparr> verifying := False, result := VerificationFailed msg \<rparr>, None)
         | Inr predictions \<Rightarrow>
             (let p = moonProb predictions
              in if p \<ge> MOON_THRESHOLD
                 then (c \<lparr> verifying := False, result := MoonVerified (percent p) \<rparr>,
                       Some \<lparr> dataUrl = capturedDataUrl c, confidence = p, verifiedAt = now \<rparr>)
                 else (c \<lparr> verifying := False, result := NotEnoughMoon (percent p) \<rparr>,
                       None))))"

section \<open>Message store\<close>

datatype route =
    onboarding | inbox | sendCapture | selectRecipient | compose | messageSent
  | unlockCapture | printing | gallery

text \<open>
  The state of \<^verbatim>\<open>MoonCodeApp\<close>: \<open>userName\<close> is \<^verbatim>\<open>userData.name\<close>, \<open>recipientName\<close>
  is \<^verbatim>\<open>recipient?.name\<close>; \<open>alerts\<close> and \<open>console\<close> record what the handlers report.
\<close>

record app =
  current :: route
  userName :: string
  messages :: "message list"
  activeMessage :: "message option"
  sendPhotoState :: "capture option"
  recipientName :: "string option"
  messageText :: string
  alerts :: "string list"
  console :: "error list"

text \<open>
  \<^verbatim>\<open>[...messages].sort((a, b) => new Date(b.sentAt) - new Date(a.sentAt))\<close>: the sort of
  the language is stable, and the comparator puts the later message first.
\<close>

definition sortedMessages :: "message list \<Rightarrow> message list" where
  "sortedMessages ms = sort_key (\<lambda>m. - sentAt m) ms"

text \<open>\<^verbatim>\<open>Array.prototype.findIndex\<close>, with \<open>None\<close> for -1.\<close>

fun findIndex :: "('a \<Rightarrow> bool) \<Rightarrow> 'a list \<Rightarrow> nat option" where
  "findIndex P [] = None"
| "findIndex P (x # xs) = (if P x then Some 0 else map_option Suc (findIndex P xs))"

text \<open>The three updaters the handlers pass to \<^verbatim>\<open>setMessages\<close>.\<close>

definition merge_message :: "message \<Rightarrow> message list \<Rightarrow> message list" where
  "merge_message mapped prev =
     (case findIndex (\<lambda>m. msg_id m = msg_id mapped) prev of
        None \<Rightarrow> mapped # prev
      | Some idx \<Rightarrow> prev[idx := mapped])"

definition prepend_message :: "message \<Rightarrow> message list \<Rightarrow> message list" where
  "prepend_message mapped prev = mapped # prev"

definition replace_message :: "message \<Rightarrow> message list \<Rightarrow> message list" where
  "replace_message mapped prev = map (\<lambda>m. if msg_id m = msg_id mapped then mapped else m) prev"

text \<open>
  The handler of the change feed; \<open>payload_new\<close> is \<^verbatim>\<open>payload.new\<close>, \<open>viewerName\<close> the
  trimmed name the effect was started with.
\<close>

definition on_postgres_changes :: "string \<Rightarrow> row option \<Rightarrow> message list \<Rightarrow> message list" where
  "on_postgres_changes viewerName payload_new prev =
     (case payload_new of
        None \<Rightarrow> prev
      | Some r \<Rightarrow>
          (if sender r \<noteq> viewerName \<and> recipient r \<noteq> viewerName then prev
           else merge_message (mapRowToMessage r (Some viewerName)) prev))"

text \<open>
  The two callbacks of the fetch in the load effect: \<open>fetched\<close> is how the promise
  settles, \<open>isMounted\<close> the flag of the effect at that moment.
\<close>

definition load_settled :: "string \<Rightarrow> bool \<Rightarrow> error + row list \<Rightarrow> app \<Rightarrow> app" where
  "load_settled viewerName isMounted fetched s =
     (case fetched of
        Inr rows \<Rightarrow>
          (if \<not> isMounted then s
           else s \<lparr> messages := map (\<lambda>r. mapRowToMessage r (Some viewerName)) rows \<rparr>)
      | Inl err \<Rightarrow> s \<lparr> console := console s @ [err] \<rparr>)"

definition load :: "backend \<Rightarrow> bool \<Rightarrow> app \<Rightarrow> app" where
  "load b isMounted s =
     (let viewerName = trim (userName s)
      in if viewerName = [] then s
         else load_settled viewerName isMounted (fetchMessagesForUser b viewerName) s)"

text \<open>\<^verbatim>\<open>showSupabaseError\<close>: the message of the error, or the fallback when it has none.\<close>

definition showSupabaseError :: "error \<Rightarrow> string \<Rightarrow> app \<Rightarrow> app" where
  "showSupabaseError e fallback s =
     (let text = (case e of SupabaseError m \<Rightarrow> m | TypeError m \<Rightarrow> m);
          msg = (if text = [] then fallback else text)
      in s \<lparr> console := console s @ [e], alerts := alerts s @ [msg] \<rparr>)"

definition send_body :: "string \<Rightarrow> string" where
  "send_body text =
     (if trim text = [] then ''A message carried by moonlight.'' else trim text)"

definition handleSendMessage :: "nat \<Rightarrow> timestamp \<Rightarrow> backend \<times> app \<Rightarrow> backend \<times> app" where
  "handleSendMessage new_id now bs =
     (let b = fst bs; s = snd bs; sndr = trim (userName s)
      in if sndr = []
         then (b, s \<lparr> alerts := alerts s @ [''Enter your name first.''],
                      current := onboarding \<rparr>)
         else
           (case recipientName s of
              None \<Rightarrow> (b, s)
            | Some rn \<Rightarrow>
                (if trim rn = [] then (b, s)
                 else
                   (case insertMessage b new_id now sndr (trim rn)
                           (send_body (messageText s)) (sendPhotoState s) of
                      Inr (b', r) \<Rightarrow>
                        (let mapped = mapRowToMessage r (Some sndr)
                         in (b', s \<lparr> messages := prepend_message mapped (messages s),
                                      activeMessage := Some mapped,
                                      current := messageSent \<rparr>))
                    | Inl e \<Rightarrow>
                        (b, showSupabaseError e
                              ''Failed to send message. Check RLS policies.'' s)))))"

text \<open>
  The condition under which \<^verbatim>\<open>handleOpenMessage\<close> sends the reader to the unlock
  capture: \<^verbatim>\<open>msg.locked || !msg.receivePhoto\<close>.
\<close>

definition canUnlock :: "message \<Rightarrow> bool" where
  "canUnlock msg = (locked msg \<or> \<not> truthy (receivePhoto msg))"

definition handleOpenMessage :: "message option \<Rightarrow> app \<Rightarrow> app" where
  "handleOpenMessage msg s =
     (case msg of
        None \<Rightarrow> s
      | Some m \<Rightarrow>
          (if canUnlock m then s \<lparr> activeMessage := Some m, current := unlockCapture \<rparr>
           else s \<lparr> activeMessage := Some m \<rparr>))"

text \<open>
  The callback \<^verbatim>\<open>onVerifiedMoon\<close> of the unlock capture. Reading the id of a null
  \<^verbatim>\<open>activeMessage\<close> throws inside the \<^verbatim>\<open>try\<close>, and the \<^verbatim>\<open>catch\<close> reports it.
\<close>

definition unlock_failed :: "error \<Rightarrow> app \<Rightarrow> app" where
  "unlock_failed e s =
     s \<lparr> console := console s @ [e],
         alerts := alerts s @ [''Failed to unlock message (check Supabase + RLS).''] \<rparr>"

definition onVerifiedMoon_unlock ::
  "timestamp \<Rightarrow> capture \<Rightarrow> backend \<times> app \<Rightarrow> backend \<times> app" where
  "onVerifiedMoon_unlock now cap bs =
     (let b = fst bs; s = snd bs
      in case activeMessage s of
           None \<Rightarrow> (b, unlock_failed (TypeError ''activeMessage is null'') s)
         | Some am \<Rightarrow>
             (case unlockMessage b (msg_id am) (Some cap) now of
                Inr (b', r) \<Rightarrow>
                  (let mapped = mapRowToMessage r
                                  (Some (if userName s = [] then ''You'' else userName s))
                   in (b', s \<lparr> activeMessage := Some mapped,
                                messages := replace_message mapped (messages s),
                                current := printing \<rparr>))
              | Inl e \<Rightarrow> (b, unlock_failed e s)))"

text \<open>
  Every way the held collection changes, as an event, and the collection after a
  sequence of them.
\<close>

datatype store_event =
    Loaded "row list"
  | Sent row
  | Changed "row option"
  | Unlocked row

fun apply_event :: "string \<Rightarrow> message list \<Rightarrow> store_event \<Rightarrow> message list" where
  "apply_event viewerName prev (Loaded rows) =
     map (\<lambda>r. mapRowToMessage r (Some viewerName)) rows"
| "apply_event viewerName prev (Sent r) =
     prepend_message (mapRowToMessage r (Some viewerName)) prev"
| "apply_event viewerName prev (Changed payload_new) =
     on_postgres_changes viewerName payload_new prev"
| "apply_event viewerName prev (Unlocked r) =
     replace_message (mapRowToMessage r (Some viewerName)) prev"

definition held :: "string \<Rightarrow> message list \<Rightarrow> store_event list \<Rightarrow> message list" where
  "held viewerName ms evs = foldl (apply_event viewerName) ms evs"

section \<open>The application as a transition system\<close>

text \<open>
  What can happen to the table and the store: the user edits the form fields (name,
  recipient, text, send photo), the fetch of the load effect settles, the change feed
  delivers one of its rows, the user sends, opens the k-th message of the inbox, or a
  verified capture arrives on the unlock screen; the service becomes unreachable or
  reachable again.
\<close>

datatype action =
    Edit string "string option" string "capture option"
  | Load bool
  | Feed nat
  | Send nat timestamp
  | Open nat
  | Unlock timestamp capture
  | Link "error option"

fun nth_opt :: "'a list \<Rightarrow> nat \<Rightarrow> 'a option" where
  "nth_opt [] k = None"
| "nth_opt (x # xs) 0 = Some x"
| "nth_opt (x # xs) (Suc k) = nth_opt xs k"

fun step :: "action \<Rightarrow> backend \<times> app \<Rightarrow> backend \<times> app" where
  "step (Edit name rcpt text photo) (b, s) =
     (b, s \<lparr> userName := name, recipientName := rcpt, messageText := text,
             sendPhotoState := photo \<rparr>)"
| "step (Load isMounted) (b, s) = (b, load b isMounted s)"
| "step (Feed k) (b, s) =
     (let viewerName = trim (userName s)
      in if viewerName = [] then (b, s)
         else (b, s \<lparr> messages :=
                        on_postgres_changes viewerName (nth_opt (events b) k) (messages s) \<rparr>))"
| "step (Send new_id now) (b, s) = handleSendMessage new_id now (b, s)"
| "step (Open k) (b, s) = (b, handleOpenMessage (nth_opt (sortedMessages (messages s)) k) s)"
| "step (Unlock now cap) (b, s) = onVerifiedMoon_unlock now cap (b, s)"
| "step (Link e) (b, s) = (b \<lparr> outage := e \<rparr>, s)"

definition run :: "action list \<Rightarrow> backend \<times> app \<Rightarrow> backend \<times> app" where
  "run acts bs = foldl (\<lambda>x a. step a x) bs acts"

text \<open>The state in which \<^verbatim>\<open>MoonCodeApp\<close> mounts, over an empty table.\<close>

definition start :: "backend \<times> app" where
  "start =
     (\<lparr> table = [], events = [], outage = None \<rparr>,
      \<lparr> current = onboarding, userName = [], messages = [], activeMessage = None,
        sendPhotoState = None, recipientName = None, messageText = [], alerts = [],
        console = [] \<rparr>)"

text \<open>The receive time and the receive photo are set together, in a row and in a message.\<close>

definition row_paired :: "row \<Rightarrow> bool" where
  "row_paired r = (receive_at r \<noteq> None \<longleftrightarrow> receive_photo r \<noteq> None)"

definition paired :: "message \<Rightarrow> bool" where
  "paired m = (receiveAt m \<noteq> None \<longleftrightarrow> receivePhoto m \<noteq> None)"

definition consistent :: "backend \<times> app \<Rightarrow> bool" where
  "consistent bs =
     (list_all row_paired (table (fst bs)) \<and> list_all row_paired (events (fst bs))
      \<and> list_all paired (messages (snd bs))
      \<and> (case activeMessage (snd bs) of None \<Rightarrow> True | Some m \<Rightarrow> paired m))"

section \<open>Examples\<close>

definition online :: backend where
  "online = \<lparr> table = [alice_to_bob], events = [alice_to_bob], outage = None \<rparr>"

definition offline :: backend where
  "offline = online \<lparr> outage := Some (SupabaseError ''Failed to fetch'') \<rparr>"

definition held_message :: message where
  "held_message = mapRowToMessage alice_to_bob (Some ''Bob'')"

definition bob_app :: app where
  "bob_app =
     \<lparr> current = inbox, userName = ''Bob'', messages = [held_message],
       activeMessage = None, sendPhotoState = None, recipientName = Some ''Alice'',
       messageText = ''   '', alerts = [], console = [] \<rparr>"

definition cap1 :: capture where
  "cap1 = \<lparr> dataUrl = Some ''data:image/jpeg;base64,AAAA'', confidence = 0.875,
            verifiedAt = 3000 \<rparr>"

definition cap2 :: capture where
  "cap2 = \<lparr> dataUrl = Some ''data:image/jpeg;base64,BBBB'', confidence = 0.75,
            verifiedAt = 4000 \<rparr>"

definition row_once :: row where
  "row_once =
     alice_to_bob \<lparr> row_locked := False, receive_photo := Some cap1, receive_at := Some 3000 \<rparr>"

definition row_twice :: row where
  "row_twice =
     alice_to_bob \<lparr> row_locked := False, receive_photo := Some cap2, receive_at := Some 4000 \<rparr>"

definition unlocked_once :: backend where
  "unlocked_once = \<lparr> table = [row_once], events = [alice_to_bob, row_once], outage = None \<rparr>"

definition unlocked_twice :: backend where
  "unlocked_twice =
     \<lparr> table = [row_twice], events = [alice_to_bob, row_once, row_twice], outage = None \<rparr>"

text \<open>
  Alice sends a letter to Bob; Bob loads his inbox, opens the letter and unlocks it with
  a verified capture.
\<close>

definition letter_and_unlock :: "action list" where
  "letter_and_unlock =
     [Edit ''Alice'' (Some ''Bob'') ''hello'' None, Send 1 1000,
      Edit ''Bob'' None [] None, Load True, Open 0, Unlock 3000 cap1]"

definition ready_camera :: camera where
  "ready_camera =
     \<lparr> model_loaded = True, canvas_present = True,
       capturedDataUrl = Some ''data:image/jpeg;base64,AAAA'', verifying = False,
       result = NoText \<rparr>"

text \<open>
  The doubles that the literals 0.80, 0.74, 0.20, 0.26, 0.745 and 0.995 denote: each is
  the multiple of a power of two nearest to the decimal.
\<close>

definition d080 :: real where
  "d080 = 3602879701896397 / 4503599627370496"

definition d074 :: real where
  "d074 = 3332663724254167 / 4503599627370496"

definition d020 :: real where
  "d020 = 3602879701896397 / 18014398509481984"

definition d026 :: real where
  "d026 = 1170935903116329 / 4503599627370496"

definition d0745 :: real where
  "d0745 = 6710363444782039 / 9007199254740992"

definition d0995 :: real where
  "d0995 = 8962163258467287 / 9007199254740992"

definition moon80 :: "prediction list" where
  "moon80 =
     [\<lparr> className = ''Not Moon'', probability = d020 \<rparr>,
      \<lparr> className = ''Moon'', probability = d080 \<rparr>]"

definition moon74 :: "prediction list" where
  "moon74 =
     [\<lparr> className = ''moon'', probability = d074 \<rparr>,
      \<lparr> className = ''Not Moon'', probability = d026 \<rparr>]"

section \<open>Strings: facts\<close>

lemma is_ws_space: "is_ws CHR '' ''"
  by (simp add: is_ws_def)

lemma dropWhile_all_iff: "(\<forall>x \<in> set (dropWhile P s). P x) \<longleftrightarrow> (\<forall>c \<in> set s. P c)"
proof
  assume a: "\<forall>x \<in> set (dropWhile P s). P x"
  have "dropWhile P s = []"
  proof (rule ccontr)
    assume n: "dropWhile P s \<noteq> []"
    then have "\<not> P (hd (dropWhile P s))"
      by (rule hd_dropWhile)
    moreover from n have "hd (dropWhile P s) \<in> set (dropWhile P s)"
      by simp
    ultimately show False
      using a by blast
  qed
  then show "\<forall>c \<in> set s. P c"
    by (simp add: dropWhile_eq_Nil_conv)
next
  assume "\<forall>c \<in> set s. P c"
  then show "\<forall>x \<in> set (dropWhile P s). P x"
    by (auto dest: set_dropWhileD)
qed

lemma trim_empty_iff: "trim s = [] \<longleftrightarrow> (\<forall>c \<in> set s. is_ws c)"
  using dropWhile_all_iff [of is_ws s] by (simp add: trim_def)

lemma trim_no_ws_ends:
  assumes "s \<noteq> []" "\<not> is_ws (hd s)" "\<not> is_ws (last s)"
  shows "trim s = s"
proof -
  from assms have a: "dropWhile is_ws s = s"
    by (cases s) simp_all
  from assms have "rev s \<noteq> []" "\<not> is_ws (hd (rev s))"
    by (simp_all add: hd_rev)
  then have "dropWhile is_ws (rev s) = rev s"
    by (cases "rev s") simp_all
  with a show ?thesis
    by (simp add: trim_def)
qed

section \<open>Viewer projection\<close>

lemma viewer_of_clean:
  assumes "n \<noteq> []" "\<not> is_ws (hd n)" "\<not> is_ws (last n)"
  shows "viewer_of (Some n) = n"
  using assms trim_no_ws_ends [OF assms] by (simp add: viewer_of_def)

lemma viewer_of_blank:
  "vn = None \<or> (\<exists>n. vn = Some n \<and> (\<forall>c \<in> set n. is_ws c)) \<Longrightarrow> viewer_of vn = ''You''"
  by (auto simp: viewer_of_def trim_empty_iff)

text \<open>
  C4, as amended. The projection compares the sender of the row with the viewer's name
  after the name is trimmed, and with \<^verbatim>\<open>"You"\<close> when the name is undefined or trims to
  the empty string: with \<open>isSender\<close> that comparison, \<open>from\<close> is \<^verbatim>\<open>"You"\<close> if
  \<open>isSender\<close> and the sender otherwise, \<open>to\<close> is the recipient if \<open>isSender\<close> and
  \<^verbatim>\<open>"You"\<close> otherwise. For a name that is not empty and has no white space at either
  end the comparison is with the name itself, as the claim has it.
\<close>

theorem viewer_projection:
  "(let m = mapRowToMessage r vn; isSender = (sender r = viewer_of vn)
    in msg_from m = (if isSender then ''You'' else sender r)
     \<and> msg_to m = (if isSender then recipient r else ''You''))
   \<and> (\<forall>n. vn = Some n \<and> n \<noteq> [] \<and> \<not> is_ws (hd n) \<and> \<not> is_ws (last n)
          \<longrightarrow> viewer_of vn = n)"
  by (auto simp: mapRowToMessage_def Let_def viewer_of_clean)

text \<open>
  The example of C4: the row from Alice to Bob reads from \<^verbatim>\<open>"You"\<close> to Bob for Alice
  and from Alice to \<^verbatim>\<open>"You"\<close> for Bob.
\<close>

theorem viewer_projection_witness:
  "msg_from (mapRowToMessage alice_to_bob (Some ''Alice'')) = ''You''
   \<and> msg_to (mapRowToMessage alice_to_bob (Some ''Alice'')) = ''Bob''
   \<and> msg_from (mapRowToMessage alice_to_bob (Some ''Bob'')) = ''Alice''
   \<and> msg_to (mapRowToMessage alice_to_bob (Some ''Bob'')) = ''You''"
  using viewer_projection [of alice_to_bob "Some ''Alice''"]
        viewer_projection [of alice_to_bob "Some ''Bob''"]
  by (simp add: Let_def alice_to_bob_def is_ws_def)

text \<open>
  C4 as stated fails for a name with white space around it: the viewer \<^verbatim>\<open>" Alice"\<close> is
  not the sender \<^verbatim>\<open>"Alice"\<close>, and the row is still projected as sent by the viewer.
\<close>

theorem viewer_projection_counterexample:
  "\<not> (msg_from (mapRowToMessage alice_to_bob (Some '' Alice'')) =
        (if sender alice_to_bob = '' Alice'' then ''You'' else sender alice_to_bob))
   \<and> msg_from (mapRowToMessage alice_to_bob (Some '' Alice'')) = ''You''
   \<and> msg_to (mapRowToMessage alice_to_bob (Some '' Alice'')) = ''Bob''"
  by (simp add: mapRowToMessage_def viewer_of_def trim_def is_ws_def alice_to_bob_def)

text \<open>
  C5. A message mapped from a row is archived if and only if its receive photo is not
  null.
\<close>

theorem archived_iff_receivePhoto:
  "archived (mapRowToMessage r vn) \<longleftrightarrow> receivePhoto (mapRowToMessage r vn) \<noteq> None"
  by (cases "receive_photo r") (simp_all add: mapRowToMessage_def truthy_def Let_def)

text \<open>
  C10. With a viewer name that is undefined, empty or white space only, a row is mapped
  as for the viewer \<^verbatim>\<open>"You"\<close>: a row whose sender is \<^verbatim>\<open>"You"\<close> reads as sent by the
  viewer, every other row as received (from its sender, to \<^verbatim>\<open>"You"\<close>).
\<close>

theorem blank_viewer_is_You:
  assumes "vn = None \<or> (\<exists>n. vn = Some n \<and> (\<forall>c \<in> set n. is_ws c))"
  shows "mapRowToMessage r vn = mapRowToMessage r (Some ''You'')
       \<and> (sender r = ''You'' \<longrightarrow>
            msg_from (mapRowToMessage r vn) = ''You''
          \<and> msg_to (mapRowToMessage r vn) = recipient r)
       \<and> (sender r \<noteq> ''You'' \<longrightarrow>
            msg_from (mapRowToMessage r vn) = sender r
          \<and> msg_from (mapRowToMessage r vn) \<noteq> ''You''
          \<and> msg_to (mapRowToMessage r vn) = ''You'')"
proof -
  have y: "viewer_of (Some ''You'') = ''You''"
    by (simp add: viewer_of_def trim_def is_ws_def)
  from assms have "viewer_of vn = ''You''"
    by (rule viewer_of_blank)
  with y show ?thesis
    by (simp add: mapRowToMessage_def Let_def)
qed

theorem blank_viewer_is_You_witness:
  "msg_from (mapRowToMessage you_to_bob (Some ''  '')) = ''You''
   \<and> msg_to (mapRowToMessage you_to_bob (Some ''  '')) = ''Bob''
   \<and> msg_from (mapRowToMessage alice_to_bob None) = ''Alice''
   \<and> msg_to (mapRowToMessage alice_to_bob None) = ''You''
   \<and> mapRowToMessage alice_to_bob (Some []) = mapRowToMessage alice_to_bob (Some ''You'')"
proof -
  have a: "Some ''  '' = None \<or> (\<exists>n. Some ''  '' = Some n \<and> (\<forall>c \<in> set n. is_ws c))"
    by (simp add: is_ws_def)
  have b: "(None :: string option) = None \<or> (\<exists>n. None = Some n \<and> (\<forall>c \<in> set n. is_ws c))"
    by simp
  have c: "Some [] = None \<or> (\<exists>n. Some [] = Some n \<and> (\<forall>c \<in> set n. is_ws c))"
    by simp
  have s1: "sender you_to_bob = ''You''" "recipient you_to_bob = ''Bob''"
    by (simp_all add: you_to_bob_def alice_to_bob_def)
  have s2: "sender alice_to_bob = ''Alice''"
    by (simp add: alice_to_bob_def)
  show ?thesis
    using blank_viewer_is_You [OF a, of you_to_bob] blank_viewer_is_You [OF b, of alice_to_bob]
          blank_viewer_is_You [OF c, of alice_to_bob]
    unfolding s1 s2 by blast
qed

section \<open>The store: merge and sorted view\<close>

lemma findIndex_update:
  "findIndex P xs = Some i \<Longrightarrow> P y \<Longrightarrow> findIndex P (xs[i := y]) = Some i"
proof (induction xs arbitrary: i)
  case Nil
  then show ?case by simp
next
  case (Cons x xs)
  show ?case
  proof (cases "P x")
    case True
    with Cons.prems show ?thesis by simp
  next
    case False
    with Cons.prems obtain j where j: "findIndex P xs = Some j" "i = Suc j"
      by auto
    with Cons.IH [OF j(1) Cons.prems(2)] False show ?thesis
      by simp
  qed
qed

lemma findIndex_None: "findIndex P xs = None \<longleftrightarrow> (\<forall>x \<in> set xs. \<not> P x)"
  by (induction xs) auto

lemma findIndex_first:
  "findIndex P xs = Some i \<Longrightarrow> i < length xs \<and> P (xs ! i) \<and> (\<forall>j < i. \<not> P (xs ! j))"
proof (induction xs arbitrary: i)
  case Nil
  then show ?case by simp
next
  case (Cons x xs)
  show ?case
  proof (cases "P x")
    case True
    with Cons.prems show ?thesis by simp
  next
    case False
    with Cons.prems obtain k where k: "findIndex P xs = Some k" "i = Suc k"
      by auto
    from Cons.IH [OF k(1)] False k(2) show ?thesis
      by (auto simp: less_Suc_eq_0_disj)
  qed
qed

text \<open>
  The merge inserts at the head when no held message has the id, and otherwise replaces
  the first held message with that id, in place.
\<close>

lemma merge_message_insert:
  "\<forall>m \<in> set prev. msg_id m \<noteq> msg_id mapped \<Longrightarrow> merge_message mapped prev = mapped # prev"
  using findIndex_None [of "\<lambda>m. msg_id m = msg_id mapped" prev]
  by (simp add: merge_message_def)

lemma merge_message_replace:
  assumes "\<exists>m \<in> set prev. msg_id m = msg_id mapped"
  shows "\<exists>i < length prev. msg_id (prev ! i) = msg_id mapped
           \<and> (\<forall>j < i. msg_id (prev ! j) \<noteq> msg_id mapped)
           \<and> merge_message mapped prev = prev[i := mapped]"
proof -
  from assms findIndex_None [of "\<lambda>m. msg_id m = msg_id mapped" prev]
  obtain i where i: "findIndex (\<lambda>m. msg_id m = msg_id mapped) prev = Some i"
    by auto
  from findIndex_first [OF i] i show ?thesis
    by (auto simp: merge_message_def)
qed

lemma merge_message_idem:
  "merge_message mapped (merge_message mapped prev) = merge_message mapped prev"
proof (cases "findIndex (\<lambda>m. msg_id m = msg_id mapped) prev")
  case None
  then show ?thesis
    by (simp add: merge_message_def)
next
  case (Some idx)
  then have "findIndex (\<lambda>m. msg_id m = msg_id mapped) (prev[idx := mapped]) = Some idx"
    by (rule findIndex_update) simp
  with Some show ?thesis
    by (simp add: merge_message_def)
qed

text \<open>
  C6. Handling the same change-feed event twice leaves the collection that handling it
  once leaves, and so the same sorted view; this holds for every event, whether its row
  matches the viewer or not.
\<close>

theorem subscribe_merge_idempotent:
  "on_postgres_changes viewerName payload_new (on_postgres_changes viewerName payload_new prev)
     = on_postgres_changes viewerName payload_new prev
   \<and> sortedMessages
       (on_postgres_changes viewerName payload_new
          (on_postgres_changes viewerName payload_new prev))
     = sortedMessages (on_postgres_changes viewerName payload_new prev)"
proof -
  have "on_postgres_changes viewerName payload_new
          (on_postgres_changes viewerName payload_new prev)
        = on_postgres_changes viewerName payload_new prev"
    by (cases payload_new) (simp_all add: on_postgres_changes_def merge_message_idem)
  then show ?thesis by simp
qed

lemma sortedMessages_desc: "sorted_wrt (\<lambda>a b. sentAt a \<ge> sentAt b) (sortedMessages ms)"
proof -
  have "sorted (map (\<lambda>m. - sentAt m) (sort_key (\<lambda>m. - sentAt m) ms))"
    by (rule sorted_sort_key)
  then show ?thesis
    by (simp add: sortedMessages_def sorted_map)
qed

lemma sortedMessages_mset: "mset (sortedMessages ms) = mset ms"
  by (simp add: sortedMessages_def)

text \<open>
  C7. Whatever sequence of loads, sends, change-feed merges and unlocks has produced the
  held collection, the view computed from it holds exactly the held messages, each as
  often as it is held, in descending order of \<open>sentAt\<close>.
\<close>

theorem visible_sorted_desc:
  "sorted_wrt (\<lambda>a b. sentAt a \<ge> sentAt b) (sortedMessages (held viewerName ms evs))
   \<and> mset (sortedMessages (held viewerName ms evs)) = mset (held viewerName ms evs)"
  by (simp add: sortedMessages_desc sortedMessages_mset)

section \<open>Load and send\<close>

lemma trim_names: "trim ''Bob'' = ''Bob''" "trim ''Alice'' = ''Alice''" "trim ''   '' = []"
  by (simp_all add: trim_def is_ws_def)

lemma fetch_outage: "outage b = Some e \<Longrightarrow> fetchMessagesForUser b u = Inl e"
  by (simp add: fetchMessagesForUser_def)

text \<open>
  C8. When the service does not answer, the fetch of the load effect rejects with the
  error, and the load leaves the held messages as they were; the error goes to the
  console.
\<close>

theorem failed_load_keeps_messages:
  assumes "outage b = Some e"
  shows "fetchMessagesForUser b (trim (userName s)) = Inl e
       \<and> messages (load b isMounted s) = messages s
       \<and> messages (load_settled viewerName isMounted (Inl e) s) = messages s
       \<and> console (load_settled viewerName isMounted (Inl e) s) = console s @ [e]
       \<and> (trim (userName s) \<noteq> [] \<longrightarrow> console (load b isMounted s) = console s @ [e])"
  using assms by (simp add: load_def load_settled_def Let_def fetch_outage)

theorem failed_load_keeps_messages_witness:
  "outage offline = Some (SupabaseError ''Failed to fetch'')
   \<and> messages (load offline True bob_app) = [held_message]
   \<and> console (load offline True bob_app) = [SupabaseError ''Failed to fetch'']"
proof -
  have o: "outage offline = Some (SupabaseError ''Failed to fetch'')"
    by (simp add: offline_def)
  have n: "trim (userName bob_app) \<noteq> []"
    by (simp add: bob_app_def trim_names)
  have m: "messages bob_app = [held_message]" "console bob_app = []"
    by (simp_all add: bob_app_def)
  from failed_load_keeps_messages [OF o, of bob_app True] n m o show ?thesis
    by simp
qed

lemma send_body_not_empty: "send_body text \<noteq> []"
  by (simp add: send_body_def)

lemma send_body_blank:
  "(\<forall>c \<in> set text. is_ws c) \<Longrightarrow> send_body text = ''A message carried by moonlight.''"
  by (simp add: send_body_def trim_empty_iff)

lemma handleSendMessage_table:
  "table (fst (handleSendMessage new_id now (b, s))) = table b
   \<or> (\<exists>r. table (fst (handleSendMessage new_id now (b, s))) = table b @ [r]
          \<and> row_body r = send_body (messageText s))"
  by (auto simp: handleSendMessage_def insertMessage_def Let_def split: option.splits)

lemma handleSendMessage_inserts:
  assumes "trim (userName s) \<noteq> []" "recipientName s = Some rn" "trim rn \<noteq> []"
    "outage b = None"
  shows "\<exists>r. table (fst (handleSendMessage new_id now (b, s))) = table b @ [r]
          \<and> row_body r = send_body (messageText s)"
  using assms by (simp add: handleSendMessage_def insertMessage_def Let_def)

text \<open>
  C9. A send leaves the table as it was or adds one row, and the body of that row is
  the trimmed text, or the default string when the text is empty or white space only;
  it is never empty. With a name, a recipient and the service reachable the row is
  added.
\<close>

theorem send_body_default:
  "(table (fst (handleSendMessage new_id now (b, s))) = table b
    \<or> (\<exists>r. table (fst (handleSendMessage new_id now (b, s))) = table b @ [r]
          \<and> row_body r = send_body (messageText s)))
   \<and> send_body (messageText s) \<noteq> []
   \<and> ((\<forall>c \<in> set (messageText s). is_ws c) \<longrightarrow>
         send_body (messageText s) = ''A message carried by moonlight.'')
   \<and> (trim (userName s) \<noteq> [] \<and> recipientName s = Some rn \<and> trim rn \<noteq> []
        \<and> outage b = None \<longrightarrow>
         (\<exists>r. table (fst (handleSendMessage new_id now (b, s))) = table b @ [r]
            \<and> row_body r = send_body (messageText s)))"
  using handleSendMessage_table [of new_id now b s]
    handleSendMessage_inserts [of s rn b new_id now]
  by (auto simp: send_body_not_empty send_body_blank)

theorem send_body_default_witness:
  "table (fst (handleSendMessage 2 2000 (online, bob_app)))
     = [alice_to_bob,
        \<lparr> row_id = 2, sender = ''Bob'', recipient = ''Alice'',
          row_body = ''A message carried by moonlight.'', row_locked = True,
          created_at = 2000, receive_at = None, send_photo = None, receive_photo = None \<rparr>]"
proof -
  have h: "trim (userName bob_app) \<noteq> []" "recipientName bob_app = Some ''Alice''"
    "trim ''Alice'' \<noteq> []" "outage online = None" "\<forall>c \<in> set (messageText bob_app). is_ws c"
    by (simp_all add: bob_app_def online_def trim_names is_ws_def)
  from send_body_default [of 2 2000 online bob_app "''Alice''"] h
  have "send_body (messageText bob_app) = ''A message carried by moonlight.''"
    by blast
  then show ?thesis
    by (simp add: handleSendMessage_def insertMessage_def Let_def bob_app_def online_def
          trim_names)
qed

section \<open>Capture verification: the label and the threshold\<close>

lemma of_char_lower_char:
  "(of_char (lower_char c) :: nat) =
     (if (65 \<le> (of_char c :: nat) \<and> (of_char c :: nat) \<le> 90)
         \<or> (192 \<le> (of_char c :: nat) \<and> (of_char c :: nat) \<le> 222
            \<and> (of_char c :: nat) \<noteq> 215)
      then of_char c + 32 else of_char c)"
  by (simp add: lower_char_def Let_def)

lemma lower_char_eq_small:
  assumes d: "(of_char d :: nat) = k" and k: "97 \<le> k" "k \<le> 122"
    and u: "(of_char u :: nat) = k - 32"
  shows "lower_char c = d \<longleftrightarrow> c = d \<or> c = u"
proof -
  have "lower_char c = d \<longleftrightarrow> (of_char (lower_char c) :: nat) = of_char d"
    by simp
  also have "\<dots> \<longleftrightarrow> (of_char c :: nat) = k \<or> (of_char c :: nat) = k - 32"
    unfolding of_char_lower_char d using k by auto
  also have "\<dots> \<longleftrightarrow> (of_char c :: nat) = of_char d \<or> (of_char c :: nat) = of_char u"
    by (simp only: d u)
  also have "\<dots> \<longleftrightarrow> c = d \<or> c = u"
    by simp
  finally show ?thesis .
qed

lemma lower_m: "lower_char c = CHR ''m'' \<longleftrightarrow> c = CHR ''m'' \<or> c = CHR ''M''"
  by (rule lower_char_eq_small [where k = 109]) simp_all

lemma lower_o: "lower_char c = CHR ''o'' \<longleftrightarrow> c = CHR ''o'' \<or> c = CHR ''O''"
  by (rule lower_char_eq_small [where k = 111]) simp_all

lemma lower_n: "lower_char c = CHR ''n'' \<longleftrightarrow> c = CHR ''n'' \<or> c = CHR ''N''"
  by (rule lower_char_eq_small [where k = 110]) simp_all

lemma lower_char_small:
  "97 \<le> (of_char c :: nat) \<Longrightarrow> (of_char c :: nat) \<le> 122 \<Longrightarrow> lower_char c = c"
  by (simp add: lower_char_def)

lemma lower_char_M: "lower_char CHR ''M'' = CHR ''m''"
  using lower_m [of "CHR ''M''"] by simp

lemma target_lower: "toLowerCase MOON_CLASS_NAME = ''moon''"
  by (simp add: toLowerCase_def MOON_CLASS_NAME_def lower_char_M lower_char_small)

text \<open>
  The comparison of the lowered label with the lowered class name accepts exactly the
  four-letter labels \<^verbatim>\<open>moon\<close> in any mix of cases: whole-string equality, no
  substring match.
\<close>

lemma moon_label_iff:
  "toLowerCase l = toLowerCase MOON_CLASS_NAME \<longleftrightarrow> is_moon_label l"
proof -
  have "toLowerCase l = ''moon'' \<longleftrightarrow> is_moon_label l"
    unfolding toLowerCase_def is_moon_label_def
    by (auto simp: lower_m lower_o lower_n map_eq_Cons_conv split: list.splits)
  then show ?thesis
    by (simp only: target_lower)
qed

lemma moonProb_spec:
  "moonProb predictions =
     (case filter (\<lambda>p. is_moon_label (className p)) predictions of
        [] \<Rightarrow> 0
      | p # _ \<Rightarrow> probability p)"
  unfolding moonProb_def moon_label_iff
  by (induction predictions) auto

lemma label_examples:
  "is_moon_label ''Moon''" "is_moon_label ''moon''" "\<not> is_moon_label ''Not Moon''"
  by (simp_all add: is_moon_label_def)

section \<open>The percentage\<close>

lemma ties_to_even_of_int: "ties_to_even (of_int n) = n"
  by (simp add: ties_to_even_def)

lemma ties_to_even_near: "\<bar>of_int (ties_to_even m) - m\<bar> \<le> 1 / 2"
  unfolding ties_to_even_def Let_def by (auto; linarith)

text \<open>
  The rounded product is a multiple of the unit of its exponent, at most half a unit from
  the exact product; an exact product that is such a multiple is kept.
\<close>

lemma round_binary64_near:
  assumes "round_binary64 x = Finite y"
  shows "\<bar>y - x\<bar> \<le> 2 powi (exponent \<bar>x\<bar> - 52) / 2"
proof (cases "x = 0")
  case True
  with assms show ?thesis
    by (simp add: round_binary64_def)
next
  case False
  let ?q = "2 powi (exponent \<bar>x\<bar> - 52) :: real"
  let ?n = "ties_to_even (\<bar>x\<bar> / ?q)"
  have q: "0 < ?q"
    by simp
  from assms False have y: "y = (if 0 < x then of_int ?n * ?q else - (of_int ?n * ?q))"
    by (simp add: round_binary64_def Let_def split: if_splits)
  have "\<bar>of_int ?n - \<bar>x\<bar> / ?q\<bar> \<le> 1 / 2"
    by (rule ties_to_even_near)
  then have "\<bar>of_int ?n - \<bar>x\<bar> / ?q\<bar> * ?q \<le> 1 / 2 * ?q"
    using q by (intro mult_right_mono) simp_all
  moreover have "\<bar>of_int ?n - \<bar>x\<bar> / ?q\<bar> * ?q = \<bar>of_int ?n * ?q - \<bar>x\<bar>\<bar>"
  proof -
    have "\<bar>of_int ?n - \<bar>x\<bar> / ?q\<bar> * ?q = \<bar>(of_int ?n - \<bar>x\<bar> / ?q) * ?q\<bar>"
      using q by (simp add: abs_mult)
    also have "(of_int ?n - \<bar>x\<bar> / ?q) * ?q = of_int ?n * ?q - \<bar>x\<bar>"
      using q by (simp add: left_diff_distrib)
    finally show ?thesis .
  qed
  ultimately have e: "\<bar>of_int ?n * ?q - \<bar>x\<bar>\<bar> \<le> ?q / 2"
    by simp
  have "\<bar>y - x\<bar> = \<bar>of_int ?n * ?q - \<bar>x\<bar>\<bar>"
  proof (cases "0 < x")
    case True
    with y show ?thesis by simp
  next
    case neg: False
    with y have "y - x = - (of_int ?n * ?q - \<bar>x\<bar>)"
      by simp
    then show ?thesis
      by (simp only: abs_minus_cancel)
  qed
  with e show ?thesis
    by simp
qed

lemma round_binary64_exact:
  assumes "0 < x" "x = of_int n * 2 powi (exponent x - 52)" "x < 2 ^ 1024"
  shows "round_binary64 x = Finite x"
proof -
  let ?q = "2 powi (exponent x - 52) :: real"
  have q: "?q \<noteq> 0"
    by simp
  from assms(2) have "x / ?q = of_int n"
    using q by (simp add: field_simps)
  then have "of_int (ties_to_even (x / ?q)) * ?q = x"
    using assms(2) by (simp add: ties_to_even_of_int)
  with assms(1,3) show ?thesis
    by (simp add: round_binary64_def Let_def)
qed

text \<open>
  From the smallest normal double on, \<open>exponent a\<close> is the binary exponent of \<open>a\<close>.
\<close>

lemma exponent_bounds:
  assumes "1 / 2 ^ 1022 \<le> a"
  shows "2 powi exponent a \<le> a \<and> a < 2 powi (exponent a + 1)"
proof (cases "1 \<le> a")
  case True
  then have p: "0 < \<lfloor>a\<rfloor>"
    by linarith
  let ?k = "bitlen \<lfloor>a\<rfloor>"
  from bitlen_bounds [OF p]
  have b: "2 ^ nat (?k - 1) \<le> \<lfloor>a\<rfloor>" "\<lfloor>a\<rfloor> < 2 ^ nat ?k"
    by simp_all
  from p have k: "1 \<le> ?k"
    by (simp add: bitlen_alt_def)
  have e: "exponent a = ?k - 1"
    using True by (simp add: exponent_def)
  have "(2::real) ^ nat (?k - 1) \<le> of_int \<lfloor>a\<rfloor>"
    using b(1) by (metis of_int_le_iff of_int_numeral of_int_power)
  then have lo: "(2::real) ^ nat (?k - 1) \<le> a"
    by linarith
  have "\<lfloor>a\<rfloor> + 1 \<le> 2 ^ nat ?k"
    using b(2) by simp
  then have "(of_int (\<lfloor>a\<rfloor> + 1) :: real) \<le> of_int (2 ^ nat ?k)"
    by (simp only: of_int_le_iff)
  then have hi: "a < (2::real) ^ nat ?k"
    by (simp) linarith
  from lo hi k e show ?thesis
    by (simp add: power_int_def)
next
  case False
  from assms have a0: "0 < a"
    by (rule less_le_trans [rotated]) simp
  let ?c = "\<lceil>1 / a\<rceil>"
  let ?j = "bitlen (?c - 1)"
  from False a0 have ia: "1 < 1 / a"
    by simp
  then have c: "0 < ?c - 1"
    by linarith
  from bitlen_bounds [OF c]
  have b: "2 ^ nat (?j - 1) \<le> ?c - 1" "?c - 1 < 2 ^ nat ?j"
    by simp_all
  from c have j: "1 \<le> ?j"
    by (simp add: bitlen_alt_def)
  define n where "n = nat (?j - 1)"
  with j have nj: "nat ?j = Suc n" "?j = int n + 1"
    by simp_all
  have "(of_int (2 ^ n) :: real) \<le> of_int (?c - 1)"
    using b(1) unfolding n_def by (simp only: of_int_le_iff)
  moreover have "(of_int (?c - 1) :: real) < 1 / a"
    by simp linarith
  ultimately have u: "(2::real) ^ n < 1 / a"
    by simp
  have "?c \<le> 2 ^ Suc n"
    using b(2) nj(1) by simp
  then have "(of_int ?c :: real) \<le> of_int (2 ^ Suc n)"
    by (simp only: of_int_le_iff)
  moreover have "1 / a \<le> of_int ?c"
    by (rule le_of_int_ceiling)
  ultimately have l: "1 / a \<le> (2::real) ^ Suc n"
    by simp linarith
  from u a0 have hi: "a < 1 / 2 ^ n"
    by (simp add: field_simps)
  from l a0 have lo: "1 / 2 ^ Suc n \<le> a"
    by (simp add: field_simps)
  have "(2::real) ^ n < 2 ^ 1022"
  proof -
    from assms a0 have "1 / a \<le> 2 ^ 1022"
      by (simp add: field_simps)
    with u show ?thesis
      by (rule less_le_trans)
  qed
  moreover have "(1::real) < 2"
    by simp
  ultimately have "n < 1022"
    by (rule power_less_imp_less_exp [rotated])
  with False nj(2) have e: "exponent a = - (int n + 1)"
    by (simp add: exponent_def)
  have p1: "(2::real) powi (- (int n + 1)) = 1 / 2 ^ Suc n"
    by (simp add: power_int_def nat_add_distrib power_one_over)
  have p2: "(2::real) powi (- (int n + 1) + 1) = 1 / 2 ^ n"
    by (simp add: power_int_def power_one_over)
  from lo hi show ?thesis
    unfolding e p1 p2 by simp
qed

lemma round_binary64_eval:
  assumes "0 < x" "exponent x = e" "ties_to_even (x / 2 powi (e - 52)) = n"
    "of_int n * 2 powi (e - 52) = y" "y < 2 ^ 1024"
  shows "round_binary64 x = Finite y"
  using assms by (simp add: round_binary64_def Let_def)

text \<open>
  The doubles 0.745 and 0.995 lie just below the decimals, and so do their exact
  products with 100; the binary64 products are 74.5 and 99.5, and the percentages 75
  and 100.
\<close>

lemma exponent_examples:
  "exponent (d080 * 100) = 6" "exponent (d074 * 100) = 6"
  "exponent (d0745 * 100) = 6" "exponent (d0995 * 100) = 6"
  by code_simp+

lemma significand_examples:
  "ties_to_even (d080 * 100 / 2 powi (6 - 52)) = 80 * 2 ^ 46"
  "ties_to_even (d074 * 100 / 2 powi (6 - 52)) = 74 * 2 ^ 46"
  "ties_to_even (d0745 * 100 / 2 powi (6 - 52)) = 149 * 2 ^ 45"
  "ties_to_even (d0995 * 100 / 2 powi (6 - 52)) = 199 * 2 ^ 45"
  by code_simp+

lemma unit_46: "(2::real) powi (6 - 52) = 1 / 2 ^ 46"
  by (simp add: power_int_def power_one_over)

lemma product_examples:
  "round_binary64 (d080 * 100) = Finite 80"
  "round_binary64 (d074 * 100) = Finite 74"
  "round_binary64 (d0745 * 100) = Finite (149 / 2)"
  "round_binary64 (d0995 * 100) = Finite (199 / 2)"
proof -
  show "round_binary64 (d080 * 100) = Finite 80"
    by (rule round_binary64_eval [OF _ exponent_examples(1) significand_examples(1)])
       (simp_all add: d080_def unit_46)
  show "round_binary64 (d074 * 100) = Finite 74"
    by (rule round_binary64_eval [OF _ exponent_examples(2) significand_examples(2)])
       (simp_all add: d074_def unit_46)
  show "round_binary64 (d0745 * 100) = Finite (149 / 2)"
    by (rule round_binary64_eval [OF _ exponent_examples(3) significand_examples(3)])
       (simp_all add: d0745_def unit_46)
  show "round_binary64 (d0995 * 100) = Finite (199 / 2)"
    by (rule round_binary64_eval [OF _ exponent_examples(4) significand_examples(4)])
       (simp_all add: d0995_def unit_46)
qed

lemma percent_examples:
  "percent d080 = Finite 80" "percent d074 = Finite 74"
  "percent d0745 = Finite 75" "percent d0995 = Finite 100"
  by (simp_all add: percent_def product_examples)

lemma below_half:
  "d0745 * 100 < 149 / 2" "d0995 * 100 < 199 / 2"
  by (simp_all add: d0745_def d0995_def)

text \<open>
  C2. With the model loaded and a canvas, for every list of predictions: the
  probability is that of the first prediction whose label is \<^verbatim>\<open>moon\<close> up to case, and
  0 when there is none; \<^verbatim>\<open>onVerifiedMoon\<close> receives a capture exactly when the
  probability is at least 0.75, and then the capture carries that probability as its
  confidence and the text reports the moon verified; below 0.75 no capture is emitted
  and the text carries the percentage.
\<close>

theorem verify_threshold:
  assumes "model_loaded c" "canvas_present c"
  shows "moonProb predictions =
           (case filter (\<lambda>p. is_moon_label (className p)) predictions of
              [] \<Rightarrow> 0
            | p # _ \<Rightarrow> probability p)
       \<and> (snd (verifyMoon now (Inr predictions) c) \<noteq> None
            \<longleftrightarrow> moonProb predictions \<ge> 0.75)
       \<and> (moonProb predictions \<ge> 0.75 \<longrightarrow>
            verifyMoon now (Inr predictions) c =
              (c \<lparr> verifying := False,
                   result := MoonVerified (percent (moonProb predictions)) \<rparr>,
               Some \<lparr> dataUrl = capturedDataUrl c, confidence = moonProb predictions,
                      verifiedAt = now \<rparr>))
       \<and> (moonProb predictions < 0.75 \<longrightarrow>
            verifyMoon now (Inr predictions) c =
              (c \<lparr> verifying := False,
                   result := NotEnoughMoon (percent (moonProb predictions)) \<rparr>,
               None))"
  using assms
  by (simp add: moonProb_spec [symmetric] verifyMoon_def MOON_THRESHOLD_def Let_def)

text \<open>
  The examples of C2: \<^verbatim>\<open>Moon\<close> at 0.80 is verified with confidence 0.80, \<^verbatim>\<open>moon\<close>
  at 0.74 is rejected with 74 percent.
\<close>

theorem verify_threshold_witness:
  "verifyMoon 5000 (Inr moon80) ready_camera =
     (ready_camera \<lparr> verifying := False, result := MoonVerified (Finite 80) \<rparr>,
      Some \<lparr> dataUrl = capturedDataUrl ready_camera, confidence = d080, verifiedAt = 5000 \<rparr>)
   \<and> verifyMoon 5000 (Inr moon74) ready_camera =
     (ready_camera \<lparr> verifying := False, result := NotEnoughMoon (Finite 74) \<rparr>, None)"
proof -
  have r: "model_loaded ready_camera" "canvas_present ready_camera"
    by (simp_all add: ready_camera_def)
  note T80 = verify_threshold [OF r, of moon80 5000]
  note T74 = verify_threshold [OF r, of moon74 5000]
  have p80: "moonProb moon80 = d080"
    using T80 [THEN conjunct1] by (simp add: moon80_def label_examples)
  have p74: "moonProb moon74 = d074"
    using T74 [THEN conjunct1] by (simp add: moon74_def label_examples)
  have th: "0.75 \<le> d080" "d074 < 0.75"
    by (simp_all add: d080_def d074_def)
  have v80: "verifyMoon 5000 (Inr moon80) ready_camera =
     (ready_camera \<lparr> verifying := False, result := MoonVerified (Finite 80) \<rparr>,
      Some \<lparr> dataUrl = capturedDataUrl ready_camera, confidence = d080,
             verifiedAt = 5000 \<rparr>)"
    using T80 [THEN conjunct2, THEN conjunct2, THEN conjunct1] th(1)
    by (simp add: p80 percent_examples)
  have v74: "verifyMoon 5000 (Inr moon74) ready_camera =
     (ready_camera \<lparr> verifying := False, result := NotEnoughMoon (Finite 74) \<rparr>, None)"
    using T74 [THEN conjunct2, THEN conjunct2, THEN conjunct2] th(2)
    by (simp add: p74 percent_examples)
  from v80 v74 show ?thesis
    by simp
qed

text \<open>
  A probability of 0.745 is below the threshold, and the text shows 75 percent: the
  product with 100 is rounded to a double before \<^verbatim>\<open>Math.round\<close> sees it.
\<close>

lemma verifyMoon_0745:
  "verifyMoon 5000 (Inr [\<lparr> className = ''MOON'', probability = d0745 \<rparr>]) ready_camera =
     (ready_camera \<lparr> verifying := False, result := NotEnoughMoon (Finite 75) \<rparr>, None)"
proof -
  have "is_moon_label ''MOON''"
    by (simp add: is_moon_label_def)
  then have "moonProb [\<lparr> className = ''MOON'', probability = d0745 \<rparr>] = d0745"
    by (simp add: moonProb_spec)
  moreover have "\<not> MOON_THRESHOLD \<le> d0745"
    by (simp add: MOON_THRESHOLD_def d0745_def)
  ultimately show ?thesis
    by (simp add: verifyMoon_def Let_def ready_camera_def percent_examples)
qed

section \<open>Unlocking\<close>

lemma unlock_update_id: "row_id (unlock_update i p t r) = row_id r"
  by (simp add: unlock_update_def)

lemma filter_unlock_update:
  "filter (\<lambda>r. row_id r = i) (map (unlock_update j p t) xs)
     = map (unlock_update j p t) (filter (\<lambda>r. row_id r = i) xs)"
  by (induction xs) (simp_all add: unlock_update_id)

lemma unlockMessage_Inr:
  assumes "unlockMessage b i p t = Inr (b', r)"
  shows "outage b = None" "outage b' = None"
    "\<exists>r0. filter (\<lambda>x. row_id x = i) (table b) = [r0] \<and> r = unlock_update i p t r0"
    "table b' = map (unlock_update i p t) (table b)"
    "events b' = events b @ [r]"
  using assms
  by (auto simp: unlockMessage_def split: option.splits list.splits)

lemma unlockMessage_row:
  assumes "unlockMessage b i p t = Inr (b', r)"
  shows "\<not> row_locked r \<and> receive_photo r = p \<and> receive_at r = Some t \<and> row_id r = i"
proof -
  from unlockMessage_Inr(3) [OF assms] obtain r0
    where r0: "filter (\<lambda>x. row_id x = i) (table b) = [r0]" "r = unlock_update i p t r0"
    by blast
  from r0(1) have "r0 \<in> set (filter (\<lambda>x. row_id x = i) (table b))"
    by simp
  then have "row_id r0 = i"
    by simp
  with r0(2) show ?thesis
    by (simp add: unlock_update_def)
qed

text \<open>
  The update has no condition on \<open>locked\<close>: on the table a successful unlock leaves, the
  same request goes through again and writes the new photo and the new time.
\<close>

lemma unlockMessage_again:
  assumes "unlockMessage b i p t = Inr (b', r)"
  shows "unlockMessage b' i p2 t2 =
           Inr (b' \<lparr> table := map (unlock_update i p2 t2) (table b'),
                      events := events b' @ [r \<lparr> receive_photo := p2, receive_at := Some t2 \<rparr>] \<rparr>,
                r \<lparr> receive_photo := p2, receive_at := Some t2 \<rparr>)"
proof -
  from unlockMessage_Inr(3) [OF assms] obtain r0
    where r0: "filter (\<lambda>x. row_id x = i) (table b) = [r0]" "r = unlock_update i p t r0"
    by blast
  have f: "filter (\<lambda>x. row_id x = i) (table b') = [r]"
    by (simp add: unlockMessage_Inr(4) [OF assms] filter_unlock_update r0)
  have u: "unlock_update i p2 t2 r = r \<lparr> receive_photo := p2, receive_at := Some t2 \<rparr>"
    using unlockMessage_row [OF assms] by (simp add: unlock_update_def)
  show ?thesis
    by (simp add: unlockMessage_def unlockMessage_Inr(2) [OF assms] f u)
qed

text \<open>
  C1, as amended. A locked message can be unlocked: opening it leads to the unlock
  capture. After a successful unlock with a capture the mapped row is not locked, holds
  the capture and the time, can no longer be unlocked, and opening it does not lead to
  the unlock capture. The unlock request itself does not reject an unlocked message: a
  second request for the same id succeeds and overwrites the photo and the time.
\<close>

theorem unlock_lifecycle:
  "(locked m \<longrightarrow> canUnlock m \<and> current (handleOpenMessage (Some m) s) = unlockCapture)
   \<and> (unlockMessage b i (Some cap) now = Inr (b', r) \<longrightarrow>
        \<not> locked (mapRowToMessage r vn)
      \<and> receivePhoto (mapRowToMessage r vn) = Some cap
      \<and> receiveAt (mapRowToMessage r vn) = Some now
      \<and> \<not> canUnlock (mapRowToMessage r vn)
      \<and> current (handleOpenMessage (Some (mapRowToMessage r vn)) s) = current s
      \<and> unlockMessage b' i (Some cap') now' =
           Inr (b' \<lparr> table := map (unlock_update i (Some cap') now') (table b'),
                      events := events b'
                        @ [r \<lparr> receive_photo := Some cap', receive_at := Some now' \<rparr>] \<rparr>,
                r \<lparr> receive_photo := Some cap', receive_at := Some now' \<rparr>))"
proof -
  have a: "locked m \<longrightarrow> canUnlock m \<and> current (handleOpenMessage (Some m) s) = unlockCapture"
    by (simp add: canUnlock_def handleOpenMessage_def)
  have b: "\<not> locked (mapRowToMessage r vn)
      \<and> receivePhoto (mapRowToMessage r vn) = Some cap
      \<and> receiveAt (mapRowToMessage r vn) = Some now
      \<and> \<not> canUnlock (mapRowToMessage r vn)
      \<and> current (handleOpenMessage (Some (mapRowToMessage r vn)) s) = current s
      \<and> unlockMessage b' i (Some cap') now' =
           Inr (b' \<lparr> table := map (unlock_update i (Some cap') now') (table b'),
                      events := events b'
                        @ [r \<lparr> receive_photo := Some cap', receive_at := Some now' \<rparr>] \<rparr>,
                r \<lparr> receive_photo := Some cap', receive_at := Some now' \<rparr>)"
    if u: "unlockMessage b i (Some cap) now = Inr (b', r)"
  proof -
    from unlockMessage_row [OF u]
    have m: "\<not> locked (mapRowToMessage r vn)" "receivePhoto (mapRowToMessage r vn) = Some cap"
      "receiveAt (mapRowToMessage r vn) = Some now"
      by (simp_all add: mapRowToMessage_def Let_def)
    then have c: "\<not> canUnlock (mapRowToMessage r vn)"
      by (simp add: canUnlock_def truthy_def)
    then have "current (handleOpenMessage (Some (mapRowToMessage r vn)) s) = current s"
      by (simp add: handleOpenMessage_def)
    with m c unlockMessage_again [OF u] show ?thesis
      by simp
  qed
  from a b show ?thesis
    by blast
qed

lemma first_unlock: "unlockMessage online 1 (Some cap1) 3000 = Inr (unlocked_once, row_once)"
  by (simp add: unlockMessage_def online_def unlock_update_def alice_to_bob_def row_once_def
        unlocked_once_def)

lemma second_unlock:
  "unlockMessage unlocked_once 1 (Some cap2) 4000 = Inr (unlocked_twice, row_twice)"
  by (simp add: unlockMessage_def unlock_update_def alice_to_bob_def row_once_def
        row_twice_def unlocked_once_def unlocked_twice_def)

theorem unlock_lifecycle_witness:
  "canUnlock held_message
   \<and> current (handleOpenMessage (Some held_message) bob_app) = unlockCapture
   \<and> \<not> canUnlock (mapRowToMessage row_once (Some ''Bob''))
   \<and> current (handleOpenMessage (Some (mapRowToMessage row_once (Some ''Bob''))) bob_app)
       = inbox
   \<and> unlockMessage unlocked_once 1 (Some cap2) 4000 =
       Inr (unlocked_once
              \<lparr> table := map (unlock_update 1 (Some cap2) 4000) (table unlocked_once),
                events := events unlocked_once
                  @ [row_once \<lparr> receive_photo := Some cap2, receive_at := Some 4000 \<rparr>] \<rparr>,
            row_once \<lparr> receive_photo := Some cap2, receive_at := Some 4000 \<rparr>)"
proof -
  note T = unlock_lifecycle [of held_message bob_app online 1 cap1 3000 unlocked_once
      row_once "Some ''Bob''" cap2 4000]
  have l: "locked held_message"
    by (simp add: held_message_def mapRowToMessage_def Let_def alice_to_bob_def)
  have c: "current bob_app = inbox"
    by (simp add: bob_app_def)
  from T l first_unlock c show ?thesis
    by simp
qed

text \<open>
  C1 as stated fails in its last part. The row of Alice's letter to Bob is unlocked with
  one capture; the message can then no longer be unlocked in the inbox, and still a
  second unlock request for it is not an error: it succeeds, and the row carries the
  second capture and the second time.
\<close>

theorem double_unlock_counterexample:
  "unlockMessage online 1 (Some cap1) 3000 = Inr (unlocked_once, row_once)
   \<and> \<not> canUnlock (mapRowToMessage row_once (Some ''Bob''))
   \<and> \<not> isl (unlockMessage unlocked_once 1 (Some cap2) 4000)
   \<and> unlockMessage unlocked_once 1 (Some cap2) 4000 = Inr (unlocked_twice, row_twice)
   \<and> receivePhoto (mapRowToMessage row_twice (Some ''Bob'')) = Some cap2
   \<and> receiveAt (mapRowToMessage row_twice (Some ''Bob'')) = Some 4000"
proof -
  have "\<not> canUnlock (mapRowToMessage row_once (Some ''Bob''))"
    by (simp add: canUnlock_def truthy_def mapRowToMessage_def Let_def row_once_def)
  moreover have "receivePhoto (mapRowToMessage row_twice (Some ''Bob'')) = Some cap2"
    "receiveAt (mapRowToMessage row_twice (Some ''Bob'')) = Some 4000"
    by (simp_all add: mapRowToMessage_def Let_def row_twice_def)
  ultimately show ?thesis
    using first_unlock second_unlock by simp
qed

section \<open>Receive time and receive photo\<close>

lemma paired_mapRowToMessage: "paired (mapRowToMessage r vn) \<longleftrightarrow> row_paired r"
  by (simp add: paired_def row_paired_def mapRowToMessage_def Let_def)

lemma list_all_update: "list_all P xs \<Longrightarrow> P y \<Longrightarrow> list_all P (xs[i := y])"
  by (induction xs arbitrary: i) (auto split: nat.splits)

lemma nth_opt_in_set: "nth_opt xs k = Some x \<Longrightarrow> x \<in> set xs"
  by (induction xs k rule: nth_opt.induct) auto

lemma merge_message_paired:
  "list_all paired prev \<Longrightarrow> paired mapped \<Longrightarrow> list_all paired (merge_message mapped prev)"
  by (simp add: merge_message_def list_all_update split: option.splits)

lemma replace_message_paired:
  "list_all paired prev \<Longrightarrow> paired mapped \<Longrightarrow> list_all paired (replace_message mapped prev)"
  by (auto simp: replace_message_def list_all_iff)

lemma on_postgres_changes_paired:
  assumes "list_all paired prev" "\<And>r. payload_new = Some r \<Longrightarrow> row_paired r"
  shows "list_all paired (on_postgres_changes viewerName payload_new prev)"
  using assms
  by (auto simp: on_postgres_changes_def merge_message_paired paired_mapRowToMessage
           split: option.splits)

lemma fetch_rows_in_table:
  "fetchMessagesForUser b u = Inr rows \<Longrightarrow> set rows \<subseteq> set (table b)"
  by (auto simp: fetchMessagesForUser_def Let_def split: option.splits)

lemma load_settled_paired:
  assumes "list_all paired (messages s)" "\<And>rows. fetched = Inr rows \<Longrightarrow> list_all row_paired rows"
  shows "list_all paired (messages (load_settled viewerName isMounted fetched s))"
  using assms
  by (auto simp: load_settled_def list_all_iff paired_mapRowToMessage split: sum.splits)

lemma load_other_fields:
  "activeMessage (load b isMounted s) = activeMessage s"
  by (simp add: load_def load_settled_def Let_def split: sum.splits)

lemma load_paired:
  assumes "list_all row_paired (table b)" "list_all paired (messages s)"
  shows "list_all paired (messages (load b isMounted s))"
proof (cases "trim (userName s) = []")
  case True
  with assms show ?thesis
    by (simp add: load_def)
next
  case False
  have "list_all row_paired rows"
    if "fetchMessagesForUser b (trim (userName s)) = Inr rows" for rows
    using fetch_rows_in_table [OF that] assms(1) by (auto simp: list_all_iff)
  with assms(2) False show ?thesis
    by (simp add: load_def Let_def load_settled_paired)
qed

lemma insertMessage_Inr:
  assumes "insertMessage b new_id now sndr rcpt bdy sp = Inr (b', r)"
  shows "table b' = table b @ [r]" "events b' = events b @ [r]"
    "receive_at r = None" "receive_photo r = None" "row_locked r"
  using assms by (auto simp: insertMessage_def Let_def split: option.splits)

lemma unlock_update_paired:
  "row_paired r \<Longrightarrow> row_paired (unlock_update i (Some cap) t r)"
  by (simp add: row_paired_def unlock_update_def)

lemma consistent_handleSendMessage:
  assumes "consistent (b, s)"
  shows "consistent (handleSendMessage new_id now (b, s))"
proof -
  have ok: "consistent (b', s \<lparr> messages := prepend_message (mapRowToMessage r vn) (messages s),
                               activeMessage := Some (mapRowToMessage r vn),
                               current := messageSent \<rparr>)"
    if "insertMessage b new_id now sndr rcpt bdy sp = Inr (b', r)" for b' r vn sndr rcpt bdy sp
  proof -
    from insertMessage_Inr(3,4) [OF that] have "row_paired r"
      by (simp add: row_paired_def)
    with assms insertMessage_Inr(1,2) [OF that] show ?thesis
      by (simp add: consistent_def prepend_message_def paired_mapRowToMessage)
  qed
  have err: "consistent (b, showSupabaseError e fb s)" for e fb
    using assms by (simp add: consistent_def showSupabaseError_def Let_def)
  have al: "consistent (b, s \<lparr> alerts := a, current := c \<rparr>)" for a c
    using assms by (simp add: consistent_def)
  show ?thesis
    using assms ok err al
    by (auto simp: handleSendMessage_def Let_def split: option.splits sum.splits)
qed

lemma consistent_onVerifiedMoon_unlock:
  assumes "consistent (b, s)"
  shows "consistent (onVerifiedMoon_unlock now cap (b, s))"
proof -
  have fail: "consistent (b, unlock_failed e s)" for e
    using assms by (simp add: consistent_def unlock_failed_def)
  have ok: "consistent (b', s \<lparr> activeMessage := Some (mapRowToMessage r vn),
                               messages := replace_message (mapRowToMessage r vn) (messages s),
                               current := printing \<rparr>)"
    if u: "unlockMessage b i (Some cap) now = Inr (b', r)" for b' r vn i
  proof -
    from unlockMessage_row [OF u] have p: "row_paired r"
      by (simp add: row_paired_def)
    from assms have "list_all row_paired (map (unlock_update i (Some cap) now) (table b))"
      by (simp add: consistent_def list_all_iff unlock_update_paired)
    with assms p unlockMessage_Inr(4,5) [OF u] show ?thesis
      by (simp add: consistent_def replace_message_paired paired_mapRowToMessage)
  qed
  show ?thesis
    using fail ok
    by (auto simp: onVerifiedMoon_unlock_def Let_def split: option.splits sum.splits)
qed

lemma consistent_handleOpenMessage:
  assumes "consistent (b, s)" "\<And>m. msg = Some m \<Longrightarrow> paired m"
  shows "consistent (b, handleOpenMessage msg s)"
  using assms by (auto simp: consistent_def handleOpenMessage_def split: option.splits)

lemma consistent_step:
  assumes "consistent bs"
  shows "consistent (step a bs)"
proof -
  obtain b s where bs: "bs = (b, s)"
    by (cases bs)
  show ?thesis
  proof (cases a)
    case (Edit name rcpt words photo)
    with assms bs show ?thesis
      by (simp add: consistent_def)
  next
    case (Load isMounted)
    with assms bs show ?thesis
      by (simp add: consistent_def load_paired load_other_fields)
  next
    case (Feed k)
    have "row_paired r" if "nth_opt (events b) k = Some r" for r
      using nth_opt_in_set [OF that] assms bs by (simp add: consistent_def list_all_iff)
    then have "list_all paired
        (on_postgres_changes v (nth_opt (events b) k) (messages s))" for v
      using assms bs by (intro on_postgres_changes_paired) (simp_all add: consistent_def)
    with assms bs Feed show ?thesis
      by (simp add: consistent_def Let_def)
  next
    case (Send new_id now)
    with assms bs show ?thesis
      by (simp add: consistent_handleSendMessage)
  next
    case (Open k)
    have "paired m" if "nth_opt (sortedMessages (messages s)) k = Some m" for m
    proof -
      from nth_opt_in_set [OF that] have "m \<in># mset (sortedMessages (messages s))"
        by simp
      then have "m \<in> set (messages s)"
        by (simp add: sortedMessages_mset)
      with assms bs show ?thesis
        by (simp add: consistent_def list_all_iff)
    qed
    with assms bs Open show ?thesis
      by (simp add: consistent_handleOpenMessage)
  next
    case (Unlock now cap)
    with assms bs show ?thesis
      by (simp add: consistent_onVerifiedMoon_unlock)
  next
    case (Link e)
    with assms bs show ?thesis
      by (simp add: consistent_def)
  qed
qed

lemma consistent_run: "consistent bs \<Longrightarrow> consistent (run acts bs)"
  unfolding run_def
  by (induction acts arbitrary: bs) (simp_all add: consistent_step)

lemma consistent_start: "consistent start"
  by (simp add: consistent_def start_def)

text \<open>
  C3. An insert leaves both the receive time and the receive photo null; an unlock with
  a capture, which is what the unlock screen passes, sets both; mapping a row keeps
  both. So in every state the application reaches from its start by edits, loads,
  change-feed deliveries, sends, opens and unlocks, each row of the table and each held
  message has a receive time if and only if it has a receive photo.
\<close>

theorem receiveAt_iff_receivePhoto:
  "list_all (\<lambda>m. receiveAt m \<noteq> None \<longleftrightarrow> receivePhoto m \<noteq> None)
     (messages (snd (run acts start)))
   \<and> list_all (\<lambda>r. receive_at r \<noteq> None \<longleftrightarrow> receive_photo r \<noteq> None)
       (table (fst (run acts start)))
   \<and> (consistent bs \<longrightarrow> consistent (run acts bs))
   \<and> (insertMessage b new_id now sndr rcpt bdy sp = Inr (b1, r1) \<longrightarrow>
         receive_at r1 = None \<and> receive_photo r1 = None)
   \<and> (unlockMessage b i (Some cap) now = Inr (b2, r2) \<longrightarrow>
         receive_at r2 = Some now \<and> receive_photo r2 = Some cap)
   \<and> (paired (mapRowToMessage r3 vn) \<longleftrightarrow> row_paired r3)"
proof -
  have c: "consistent (run acts start)"
    using consistent_start by (rule consistent_run)
  then have m: "list_all (\<lambda>m. receiveAt m \<noteq> None \<longleftrightarrow> receivePhoto m \<noteq> None)
      (messages (snd (run acts start)))"
    by (simp add: consistent_def list_all_iff paired_def)
  from c have t: "list_all (\<lambda>r. receive_at r \<noteq> None \<longleftrightarrow> receive_photo r \<noteq> None)
      (table (fst (run acts start)))"
    by (simp add: consistent_def list_all_iff row_paired_def)
  have i: "insertMessage b new_id now sndr rcpt bdy sp = Inr (b1, r1) \<longrightarrow>
      receive_at r1 = None \<and> receive_photo r1 = None"
    using insertMessage_Inr(3,4) by blast
  have u: "unlockMessage b i (Some cap) now = Inr (b2, r2) \<longrightarrow>
      receive_at r2 = Some now \<and> receive_photo r2 = Some cap"
    using unlockMessage_row by blast
  from m t i u show ?thesis
    by (simp add: consistent_run paired_mapRowToMessage)
qed

lemma run_letter_and_unlock:
  "messages (snd (run letter_and_unlock start)) = [mapRowToMessage row_once (Some ''Bob'')]"
  by (simp add: run_def letter_and_unlock_def start_def handleSendMessage_def
        insertMessage_def send_body_def prepend_message_def load_def load_settled_def
        fetchMessagesForUser_def sortedMessages_def handleOpenMessage_def canUnlock_def
        onVerifiedMoon_unlock_def unlockMessage_def unlock_update_def replace_message_def
        mapRowToMessage_def viewer_of_def truthy_def trim_def is_ws_def Let_def
        row_once_def alice_to_bob_def)

text \<open>
  After Alice's letter is sent, loaded by Bob and unlocked with a capture, the one held
  message has both the receive time and the receive photo.
\<close>

theorem receiveAt_iff_receivePhoto_witness:
  "messages (snd (run letter_and_unlock start)) = [mapRowToMessage row_once (Some ''Bob'')]
   \<and> receiveAt (mapRowToMessage row_once (Some ''Bob'')) = Some 3000
   \<and> receivePhoto (mapRowToMessage row_once (Some ''Bob'')) = Some cap1
   \<and> consistent (run letter_and_unlock start)"
proof -
  have c: "consistent start"
    by (simp add: consistent_def start_def)
  have "receiveAt (mapRowToMessage row_once (Some ''Bob'')) = Some 3000"
    "receivePhoto (mapRowToMessage row_once (Some ''Bob'')) = Some cap1"
    by (simp_all add: mapRowToMessage_def Let_def row_once_def)
  with receiveAt_iff_receivePhoto [of letter_and_unlock start] c run_letter_and_unlock
  show ?thesis
    by simp
qed

end
